theory Spec2Isabelle
  imports Main "HOL-Library.AList"
begin

section \<open>JSON values and the platform codec\<close>

text \<open>
  The watched list is kept in \<open>localStorage\<close> as the text that \<open>JSON.stringify\<close> produces
  and is read back with \<open>JSON.parse\<close>. Both are functions of the platform, not of the
  repository. A text of the platform is a sequence of UTF-16 code units, here a list of
  natural numbers; \<open>units\<close> gives the text of a string of characters below 256.

  A number of the platform is a double. The model keeps a finite number other than
  \<open>-0\<close> as the text that the platform writes for it (\<open>100\<close> for the double that the
  literals \<open>100\<close>, \<open>1e2\<close> and \<open>1.0E2\<close> denote), and has one value for \<open>-0\<close> and one for
  the numbers that are not finite (the two infinities and NaN), which \<open>JSON.stringify\<close>
  does not tell apart. The conversion of a number literal into a double is a parameter
  \<open>N\<close> of \<open>JSON.parse\<close>: \<open>N t\<close> is the double that the literal \<open>t\<close> denotes, infinite when
  the literal is out of range. An object is the list of its fields in the order in
  which the platform enumerates them: the keys that are array indices first, in ascending
  order, then the other keys in the order of their creation.
\<close>

type_synonym utf16 = "nat list"

abbreviation cu :: "char \<Rightarrow> nat" where
  "cu \<equiv> of_char"

definition units :: "string \<Rightarrow> utf16" where
  "units s = map cu s"

datatype number = Finite utf16 | NegZero | NonFinite

datatype json =
    JNull
  | JBool bool
  | JNum number
  | JStr utf16
  | JArr "json list"
  | JObj "(utf16 \<times> json) list"

subsection \<open>JSON.stringify\<close>

definition hex_digit :: "nat \<Rightarrow> nat" where
  "hex_digit d = (if d < 10 then cu CHR ''0'' + d else cu CHR ''a'' + (d - 10))"

definition hex4 :: "nat \<Rightarrow> utf16" where
  "hex4 c =
     [hex_digit (c div 4096 mod 16), hex_digit (c div 256 mod 16),
      hex_digit (c div 16 mod 16), hex_digit (c mod 16)]"

definition is_high :: "nat \<Rightarrow> bool" where
  "is_high c = (0xD800 \<le> c \<and> c \<le> 0xDBFF)"

definition is_low :: "nat \<Rightarrow> bool" where
  "is_low c = (0xDC00 \<le> c \<and> c \<le> 0xDFFF)"

text \<open>
  The quoting of a string: the quotation mark and the backslash are escaped, the five
  control characters with a short escape use it, every other code unit below \<open>0x20\<close>
  and every surrogate that is not part of a pair is written \<open>\uxxxx\<close> with lower-case
  hexadecimal digits, and everything else is written as it is.
\<close>

definition escape_unit :: "nat \<Rightarrow> utf16" where
  "escape_unit c =
     (if c = cu (CHR 0x22) then [cu (CHR 0x5C), cu (CHR 0x22)]
      else if c = cu (CHR 0x5C) then [cu (CHR 0x5C), cu (CHR 0x5C)]
      else if c = 0x08 then [cu (CHR 0x5C), cu CHR ''b'']
      else if c = 0x0C then [cu (CHR 0x5C), cu CHR ''f'']
      else if c = 0x0A then [cu (CHR 0x5C), cu CHR ''n'']
      else if c = 0x0D then [cu (CHR 0x5C), cu CHR ''r'']
      else if c = 0x09 then [cu (CHR 0x5C), cu CHR ''t'']
      else if c < 0x20 \<or> is_high c \<or> is_low c then cu (CHR 0x5C) # cu CHR ''u'' # hex4 c
      else [c])"

fun escape :: "utf16 \<Rightarrow> utf16" where
  "escape [] = []"
| "escape [c] = escape_unit c"
| "escape (c # d # cs) =
     (if is_high c \<and> is_low d then c # d # escape cs else escape_unit c @ escape (d # cs))"

definition quote :: "utf16 \<Rightarrow> utf16" where
  "quote s = cu (CHR 0x22) # escape s @ [cu (CHR 0x22)]"

fun commas :: "utf16 list \<Rightarrow> utf16" where
  "commas [] = []"
| "commas [x] = x"
| "commas (x # y # ys) = x @ cu CHR '','' # commas (y # ys)"

fun JSON_stringify :: "json \<Rightarrow> utf16" where
  "JSON_stringify JNull = units ''null''"
| "JSON_stringify (JBool b) = (if b then units ''true'' else units ''false'')"
| "JSON_stringify (JNum x) =
     (case x of Finite t \<Rightarrow> t | NegZero \<Rightarrow> units ''0'' | NonFinite \<Rightarrow> units ''null'')"
| "JSON_stringify (JStr s) = quote s"
| "JSON_stringify (JArr vs) = cu CHR ''['' # commas (map JSON_stringify vs) @ [cu CHR '']'']"
| "JSON_stringify (JObj kvs) =
     cu CHR ''{'' #
     commas (map (\<lambda>(k, v). quote k @ cu CHR '':'' # JSON_stringify v) kvs) @ [cu CHR ''}'']"

subsection \<open>JSON.parse: the lexer\<close>

datatype token = TLBracket | TRBracket | TLBrace | TRBrace | TComma | TColon | TAtom json

definition is_ws :: "nat \<Rightarrow> bool" where
  "is_ws c = (c = cu CHR '' '' \<or> c = 0x09 \<or> c = 0x0A \<or> c = 0x0D)"

definition is_digit :: "nat \<Rightarrow> bool" where
  "is_digit c = (cu CHR ''0'' \<le> c \<and> c \<le> cu CHR ''9'')"

definition hex_val :: "nat \<Rightarrow> nat option" where
  "hex_val c =
     (if cu CHR ''0'' \<le> c \<and> c \<le> cu CHR ''9'' then Some (c - cu CHR ''0'')
      else if cu CHR ''a'' \<le> c \<and> c \<le> cu CHR ''f'' then Some (c - cu CHR ''a'' + 10)
      else if cu CHR ''A'' \<le> c \<and> c \<le> cu CHR ''F'' then Some (c - cu CHR ''A'' + 10)
      else None)"

definition unescape :: "nat \<Rightarrow> nat option" where
  "unescape e =
     (if e = cu (CHR 0x22) then Some (cu (CHR 0x22))
      else if e = cu (CHR 0x5C) then Some (cu (CHR 0x5C))
      else if e = cu CHR ''/'' then Some (cu CHR ''/'')
      else if e = cu CHR ''b'' then Some 0x08
      else if e = cu CHR ''f'' then Some 0x0C
      else if e = cu CHR ''n'' then Some 0x0A
      else if e = cu CHR ''r'' then Some 0x0D
      else if e = cu CHR ''t'' then Some 0x09
      else None)"

definition unicode_escape :: "nat \<Rightarrow> nat \<Rightarrow> nat \<Rightarrow> nat \<Rightarrow> nat option" where
  "unicode_escape a b c d =
     (case (hex_val a, hex_val b, hex_val c, hex_val d) of
        (Some h1, Some h2, Some h3, Some h4) \<Rightarrow> Some (((h1 * 16 + h2) * 16 + h3) * 16 + h4)
      | _ \<Rightarrow> None)"

text \<open>
  \<open>lex_string\<close> reads a string token after its opening quotation mark and returns the
  decoded string with the text that follows the closing mark. A raw control character
  inside a string is a syntax error.
\<close>

fun lex_string :: "utf16 \<Rightarrow> (utf16 \<times> utf16) option" where
  "lex_string [] = None"
| "lex_string (c # cs) =
     (if c = cu (CHR 0x22) then Some ([], cs)
      else if c = cu (CHR 0x5C) then
        (case cs of
           [] \<Rightarrow> None
         | e # cs1 \<Rightarrow>
             if e = cu CHR ''u'' then
               (case cs1 of
                  a # b # c # d # cs2 \<Rightarrow>
                    (case unicode_escape a b c d of
                       None \<Rightarrow> None
                     | Some ch \<Rightarrow> map_option (\<lambda>(s, r). (ch # s, r)) (lex_string cs2))
                | _ \<Rightarrow> None)
             else
               (case unescape e of
                  None \<Rightarrow> None
                | Some ch \<Rightarrow> map_option (\<lambda>(s, r). (ch # s, r)) (lex_string cs1)))
      else if c < 0x20 then None
      else map_option (\<lambda>(s, r). (c # s, r)) (lex_string cs))"

text \<open>
  \<open>lex_number\<close> reads a number token: an optional minus sign, an integer part with no
  superfluous leading zero, an optional fraction and an optional exponent. It returns
  the token and the text that follows it.
\<close>

definition lex_sign :: "utf16 \<Rightarrow> utf16 \<times> utf16" where
  "lex_sign cs =
     (case cs of c # r \<Rightarrow> if c = cu CHR ''-'' then ([c], r) else ([], cs) | [] \<Rightarrow> ([], cs))"

definition lex_digits :: "utf16 \<Rightarrow> (utf16 \<times> utf16) option" where
  "lex_digits cs =
     (let ds = takeWhile is_digit cs
      in if ds = [] then None else Some (ds, dropWhile is_digit cs))"

definition lex_int :: "utf16 \<Rightarrow> (utf16 \<times> utf16) option" where
  "lex_int cs =
     (case lex_digits cs of
        None \<Rightarrow> None
      | Some (ds, r) \<Rightarrow> if hd ds = cu CHR ''0'' \<and> 1 < length ds then None else Some (ds, r))"

definition lex_frac :: "utf16 \<Rightarrow> (utf16 \<times> utf16) option" where
  "lex_frac cs =
     (case cs of
        c # r \<Rightarrow>
          if c = cu CHR ''.'' then map_option (\<lambda>(ds, r'). (c # ds, r')) (lex_digits r)
          else Some ([], cs)
      | [] \<Rightarrow> Some ([], cs))"

definition lex_exp :: "utf16 \<Rightarrow> (utf16 \<times> utf16) option" where
  "lex_exp cs =
     (case cs of
        e # r \<Rightarrow>
          if e = cu CHR ''e'' \<or> e = cu CHR ''E'' then
            (case r of
               s # r' \<Rightarrow>
                 if s = cu CHR ''+'' \<or> s = cu CHR ''-''
                 then map_option (\<lambda>(ds, r''). (e # s # ds, r'')) (lex_digits r')
                 else map_option (\<lambda>(ds, r''). (e # ds, r'')) (lex_digits r)
             | [] \<Rightarrow> None)
          else Some ([], cs)
      | [] \<Rightarrow> Some ([], cs))"

definition lex_number :: "utf16 \<Rightarrow> (utf16 \<times> utf16) option" where
  "lex_number cs =
     (case lex_sign cs of
        (sg, r0) \<Rightarrow>
          (case lex_int r0 of
             None \<Rightarrow> None
           | Some (ip, r1) \<Rightarrow>
               (case lex_frac r1 of
                  None \<Rightarrow> None
                | Some (fp, r2) \<Rightarrow>
                    (case lex_exp r2 of
                       None \<Rightarrow> None
                     | Some (ep, r3) \<Rightarrow> Some (sg @ ip @ fp @ ep, r3)))))"

lemma lex_string_length: "lex_string cs = Some (s, r) \<Longrightarrow> length r \<le> length cs"
proof (induction cs arbitrary: s r rule: lex_string.induct)
  case 1
  then show ?case by simp
next
  case (2 c cs)
  then show ?case
    by (fastforce split: if_splits list.splits option.splits)
qed

lemma lex_digits_split: "lex_digits cs = Some (t, r) \<Longrightarrow> cs = t @ r \<and> t \<noteq> []"
  by (auto simp: lex_digits_def Let_def split: if_splits)

lemma lex_sign_split: "lex_sign cs = (sg, r) \<Longrightarrow> cs = sg @ r"
  by (auto simp: lex_sign_def split: list.splits if_splits)

lemma lex_int_split: "lex_int cs = Some (t, r) \<Longrightarrow> cs = t @ r \<and> t \<noteq> []"
  by (auto simp: lex_int_def split: option.splits if_splits dest: lex_digits_split)

lemma lex_frac_split: "lex_frac cs = Some (t, r) \<Longrightarrow> cs = t @ r"
  by (auto simp: lex_frac_def split: list.splits if_splits dest: lex_digits_split)

lemma lex_exp_split: "lex_exp cs = Some (t, r) \<Longrightarrow> cs = t @ r"
  by (auto simp: lex_exp_def split: list.splits if_splits dest: lex_digits_split)

lemma lex_number_split: "lex_number cs = Some (t, r) \<Longrightarrow> cs = t @ r \<and> t \<noteq> []"
  by (auto simp: lex_number_def split: prod.splits option.splits
      dest!: lex_sign_split lex_int_split lex_frac_split lex_exp_split)

lemma lex_number_length: "lex_number cs = Some (t, r) \<Longrightarrow> length r < length cs"
  using lex_number_split [of cs t r] by (cases t) auto

function lex :: "(utf16 \<Rightarrow> number) \<Rightarrow> utf16 \<Rightarrow> token list option" where
  "lex N [] = Some []"
| "lex N (c # cs) =
     (if is_ws c then lex N cs
      else if c = cu CHR ''['' then map_option ((#) TLBracket) (lex N cs)
      else if c = cu CHR '']'' then map_option ((#) TRBracket) (lex N cs)
      else if c = cu CHR ''{'' then map_option ((#) TLBrace) (lex N cs)
      else if c = cu CHR ''}'' then map_option ((#) TRBrace) (lex N cs)
      else if c = cu CHR '','' then map_option ((#) TComma) (lex N cs)
      else if c = cu CHR '':'' then map_option ((#) TColon) (lex N cs)
      else if c = cu (CHR 0x22) then
        (case lex_string cs of
           None \<Rightarrow> None
         | Some (s, rest) \<Rightarrow> map_option ((#) (TAtom (JStr s))) (lex N rest))
      else if c = cu CHR ''-'' \<or> is_digit c then
        (case lex_number (c # cs) of
           None \<Rightarrow> None
         | Some (t, rest) \<Rightarrow> map_option ((#) (TAtom (JNum (N t)))) (lex N rest))
      else if c = cu CHR ''n'' \<and> take 3 cs = units ''ull''
        then map_option ((#) (TAtom JNull)) (lex N (drop 3 cs))
      else if c = cu CHR ''t'' \<and> take 3 cs = units ''rue''
        then map_option ((#) (TAtom (JBool True))) (lex N (drop 3 cs))
      else if c = cu CHR ''f'' \<and> take 4 cs = units ''alse''
        then map_option ((#) (TAtom (JBool False))) (lex N (drop 4 cs))
      else None)"
  by pat_completeness auto
termination
proof (relation "measure (\<lambda>(N, cs). length cs)", goal_cases)
  case (9 N c cs x2 x y)
  then show ?case
    using lex_string_length [of cs x y] by simp
next
  case (10 N c cs x2 x y)
  then show ?case
    using lex_number_length [of "c # cs" x y] by simp
qed simp_all

declare lex.simps [simp del]

subsection \<open>JSON.parse: the parser\<close>

text \<open>
  The parser reads the tokens from left to right with a stack of the arrays and objects
  that are still open. A field whose key is already present in its object replaces the
  earlier value and keeps the earlier position; a new key that is an array index (the
  decimal text of a number up to \<open>2^32 - 2\<close>) goes before the keys that are not and the
  larger indices, any other new key goes to the end.
\<close>

definition digits_val :: "utf16 \<Rightarrow> nat" where
  "digits_val ds = foldl (\<lambda>a c. 10 * a + (c - cu CHR ''0'')) 0 ds"

definition is_index :: "utf16 \<Rightarrow> bool" where
  "is_index k =
     (k \<noteq> [] \<and> (\<forall>c\<in>set k. is_digit c) \<and> (hd k = cu CHR ''0'' \<longrightarrow> length k = 1) \<and>
      digits_val k \<le> 4294967294)"

fun insert_index :: "utf16 \<Rightarrow> json \<Rightarrow> (utf16 \<times> json) list \<Rightarrow> (utf16 \<times> json) list" where
  "insert_index k v [] = [(k, v)]"
| "insert_index k v ((k', v') # kvs) =
     (if is_index k' \<and> digits_val k' < digits_val k then (k', v') # insert_index k v kvs
      else (k, v) # (k', v') # kvs)"

definition obj_put :: "utf16 \<Rightarrow> json \<Rightarrow> (utf16 \<times> json) list \<Rightarrow> (utf16 \<times> json) list" where
  "obj_put k v kvs =
     (if k \<in> fst ` set kvs then AList.update k v kvs
      else if is_index k then insert_index k v kvs
      else kvs @ [(k, v)])"

datatype frame =
    FArr "json list"
  | FObj "(utf16 \<times> json) list"
  | FKey "(utf16 \<times> json) list" utf16

datatype mode = MValue | MFirst | MKeyFirst | MKey | MColon | MAfter | MDone json

fun finish :: "json \<Rightarrow> frame list \<Rightarrow> (mode \<times> frame list) option" where
  "finish v [] = Some (MDone v, [])"
| "finish v (FArr acc # stk) = Some (MAfter, FArr (acc @ [v]) # stk)"
| "finish v (FKey kvs k # stk) = Some (MAfter, FObj (obj_put k v kvs) # stk)"
| "finish v (FObj kvs # stk) = None"

fun close_array :: "frame list \<Rightarrow> (mode \<times> frame list) option" where
  "close_array (FArr acc # stk) = finish (JArr acc) stk"
| "close_array _ = None"

fun close_object :: "frame list \<Rightarrow> (mode \<times> frame list) option" where
  "close_object (FObj kvs # stk) = finish (JObj kvs) stk"
| "close_object _ = None"

fun open_key :: "utf16 \<Rightarrow> frame list \<Rightarrow> (mode \<times> frame list) option" where
  "open_key k (FObj kvs # stk) = Some (MColon, FKey kvs k # stk)"
| "open_key k _ = None"

fun after_comma :: "frame list \<Rightarrow> (mode \<times> frame list) option" where
  "after_comma (FArr acc # stk) = Some (MValue, FArr acc # stk)"
| "after_comma (FObj kvs # stk) = Some (MKey, FObj kvs # stk)"
| "after_comma _ = None"

fun start_value :: "token \<Rightarrow> frame list \<Rightarrow> (mode \<times> frame list) option" where
  "start_value (TAtom a) stk = finish a stk"
| "start_value TLBracket stk = Some (MFirst, FArr [] # stk)"
| "start_value TLBrace stk = Some (MKeyFirst, FObj [] # stk)"
| "start_value _ stk = None"

fun parse_step :: "mode \<Rightarrow> token \<Rightarrow> frame list \<Rightarrow> (mode \<times> frame list) option" where
  "parse_step MValue t stk = start_value t stk"
| "parse_step MFirst TRBracket stk = close_array stk"
| "parse_step MFirst t stk = start_value t stk"
| "parse_step MKeyFirst TRBrace stk = close_object stk"
| "parse_step MKeyFirst (TAtom (JStr k)) stk = open_key k stk"
| "parse_step MKey (TAtom (JStr k)) stk = open_key k stk"
| "parse_step MColon TColon stk = Some (MValue, stk)"
| "parse_step MAfter TComma stk = after_comma stk"
| "parse_step MAfter TRBracket stk = close_array stk"
| "parse_step MAfter TRBrace stk = close_object stk"
| "parse_step _ _ _ = None"

fun parse_tokens :: "mode \<Rightarrow> frame list \<Rightarrow> token list \<Rightarrow> json option" where
  "parse_tokens m stk [] = (case m of MDone v \<Rightarrow> Some v | _ \<Rightarrow> None)"
| "parse_tokens m stk (t # ts) =
     (case parse_step m t stk of
        None \<Rightarrow> None
      | Some (m', stk') \<Rightarrow> parse_tokens m' stk' ts)"

definition JSON_parse :: "(utf16 \<Rightarrow> number) \<Rightarrow> utf16 \<Rightarrow> json option" where
  "JSON_parse N s = (case lex N s of None \<Rightarrow> None | Some ts \<Rightarrow> parse_tokens MValue [] ts)"

section \<open>The application state\<close>

text \<open>
  The state of \<open>App\<close>: its six state variables, the content of \<open>localStorage\<close>, the
  fetches that \<open>fetchMovies\<close> has started, each with the abort flag of the controller its
  effect created, the cleanup function that the last run of the query effect returned
  (the index of the fetch whose controller it aborts, when it returned one), and whether
  the search input is the active element of the document.
\<close>

datatype exn = SyntaxError | TypeError

record js_error =
  name :: string
  message :: string

record movie =
  imdbID :: string
  Title :: string
  Year :: string
  Poster :: string

datatype stage = AwaitFetch | AwaitJson | Settled

record request =
  search :: string
  aborted :: bool
  stage :: stage

type_synonym storage = "string \<rightharpoonup> utf16"

record app =
  movies :: "movie list"
  isLoading :: bool
  error :: string
  query :: string
  selectedId :: "string option"
  watched :: "json list"
  localStorage :: storage
  requests :: "request list"
  cleanup :: "nat option"
  inputFocused :: bool

subsection \<open>Selection\<close>

definition handleSelectMovie :: "string \<Rightarrow> app \<Rightarrow> app" where
  "handleSelectMovie i s = s\<lparr>selectedId := (if Some i = selectedId s then None else Some i)\<rparr>"

definition handleCloseMovie :: "app \<Rightarrow> app" where
  "handleCloseMovie s = s\<lparr>selectedId := None\<rparr>"

subsection \<open>The watched list and its persistence\<close>

definition handleAddWatched :: "json \<Rightarrow> app \<Rightarrow> app" where
  "handleAddWatched m s = s\<lparr>watched := watched s @ [m]\<rparr>"

text \<open>
  \<open>movie.imdbID\<close>: reading a property of \<open>null\<close> raises a TypeError; an object gives the
  field or \<open>undefined\<close> (\<open>None\<close>); every other value has no such property. The strings of
  the state variables and of the events are strings of characters; \<open>units\<close> gives their
  code units where they meet a value of the watched list.
\<close>

fun imdbID_of :: "json \<Rightarrow> exn + json option" where
  "imdbID_of JNull = Inl TypeError"
| "imdbID_of (JObj kvs) = Inr (map_of kvs (units ''imdbID''))"
| "imdbID_of _ = Inr None"

fun filter_watched :: "string \<Rightarrow> json list \<Rightarrow> exn + json list" where
  "filter_watched i [] = Inr []"
| "filter_watched i (m # ms) =
     (case imdbID_of m of
        Inl e \<Rightarrow> Inl e
      | Inr x \<Rightarrow>
          (case filter_watched i ms of
             Inl e \<Rightarrow> Inl e
           | Inr r \<Rightarrow> Inr (if x \<noteq> Some (JStr (units i)) then m # r else r)))"

definition handleDeleteWatched :: "string \<Rightarrow> app \<Rightarrow> exn + app" where
  "handleDeleteWatched i s =
     (case filter_watched i (watched s) of
        Inl e \<Rightarrow> Inl e
      | Inr ws \<Rightarrow> Inr (s\<lparr>watched := ws\<rparr>))"

text \<open>The effect on \<open>[watched]\<close>: it writes the whole list under the key \<open>watched\<close>.\<close>

definition persistEffect :: "app \<Rightarrow> app" where
  "persistEffect s =
     s\<lparr>localStorage := (localStorage s)(''watched'' \<mapsto> JSON_stringify (JArr (watched s)))\<rparr>"

text \<open>
  The initialiser of the \<open>watched\<close> state. A string is falsy when it is empty, and
  \<open>getItem\<close> gives \<open>null\<close> for a key that is absent. \<open>JSON.parse\<close> raises a SyntaxError on
  a text that is not JSON; nothing catches it. \<open>N\<close> is the conversion of number literals
  that \<open>JSON.parse\<close> uses.
\<close>

definition loadInitial :: "(utf16 \<Rightarrow> number) \<Rightarrow> storage \<Rightarrow> exn + json" where
  "loadInitial N ls =
     (case ls ''watched'' of
        None \<Rightarrow> Inr (JArr [])
      | Some storedValue \<Rightarrow>
          if storedValue = [] then Inr (JArr [])
          else (case JSON_parse N storedValue of
                  None \<Rightarrow> Inl SyntaxError
                | Some v \<Rightarrow> Inr v))"

subsection \<open>The query effect and fetchMovies\<close>

text \<open>
  \<open>fetchMovies\<close> runs up to its first \<open>await\<close> when the effect calls it: it sets the loading
  flag, resets the error and starts the fetch with the signal of the new controller. The
  address of the fetch is made of the API key, a constant of the module, and the query;
  the request records the query.
\<close>

definition fetchMovies_start :: "app \<Rightarrow> app" where
  "fetchMovies_start s =
     s\<lparr>isLoading := True, error := [],
       requests := requests s @ [\<lparr>search = query s, aborted = False, stage = AwaitFetch\<rparr>]\<rparr>"

definition queryEffect :: "app \<Rightarrow> app" where
  "queryEffect s =
     (if query s = [] then s\<lparr>movies := [], error := [], cleanup := None\<rparr>
      else (fetchMovies_start (handleCloseMovie s))\<lparr>cleanup := Some (length (requests s))\<rparr>)"

definition abort :: "nat \<Rightarrow> app \<Rightarrow> app" where
  "abort i s =
     (if i < length (requests s)
      then s\<lparr>requests := (requests s)[i := (requests s ! i)\<lparr>aborted := True\<rparr>]\<rparr>
      else s)"

definition runCleanup :: "app \<Rightarrow> app" where
  "runCleanup s = (case cleanup s of None \<Rightarrow> s | Some i \<Rightarrow> abort i s)"

text \<open>
  \<open>setQuery\<close>: a value equal to the current one changes nothing and runs no effect;
  otherwise the cleanup of the previous run of the effect is called, then the effect runs
  with the new query.
\<close>

definition setQuery :: "string \<Rightarrow> app \<Rightarrow> app" where
  "setQuery q s = (if q = query s then s else queryEffect ((runCleanup s)\<lparr>query := q\<rparr>))"

text \<open>The \<open>catch\<close> and \<open>finally\<close> blocks of \<open>fetchMovies\<close>.\<close>

definition catch_finally :: "js_error \<Rightarrow> app \<Rightarrow> app" where
  "catch_finally err s =
     (if name err \<noteq> ''AbortError'' then s\<lparr>error := message err\<rparr> else s)\<lparr>isLoading := False\<rparr>"

definition abortError :: js_error where
  "abortError = \<lparr>name = ''AbortError'', message = ''signal is aborted without reason''\<rparr>"

definition set_stage :: "nat \<Rightarrow> stage \<Rightarrow> app \<Rightarrow> app" where
  "set_stage i st s = s\<lparr>requests := (requests s)[i := (requests s ! i)\<lparr>stage := st\<rparr>]\<rparr>"

text \<open>
  The two points where \<open>fetchMovies\<close> is suspended settle as events. A promise whose
  signal is aborted rejects with an AbortError, whatever the network delivers.
\<close>

datatype fetch_outcome = FetchRejected js_error | Response bool

datatype json_outcome = JsonRejected js_error | Data string "movie list"

definition fetchSettled :: "nat \<Rightarrow> fetch_outcome \<Rightarrow> app \<Rightarrow> app" where
  "fetchSettled i out s =
     (if i < length (requests s) \<and> stage (requests s ! i) = AwaitFetch then
        (if aborted (requests s ! i) then catch_finally abortError (set_stage i Settled s)
         else (case out of
                 FetchRejected err \<Rightarrow> catch_finally err (set_stage i Settled s)
               | Response ok \<Rightarrow>
                   if \<not> ok then
                     catch_finally
                       \<lparr>name = ''Error'', message = ''Something went wrong while fetching movies''\<rparr>
                       (set_stage i Settled s)
                   else set_stage i AwaitJson s))
      else s)"

definition jsonSettled :: "nat \<Rightarrow> json_outcome \<Rightarrow> app \<Rightarrow> app" where
  "jsonSettled i out s =
     (if i < length (requests s) \<and> stage (requests s ! i) = AwaitJson then
        (if aborted (requests s ! i) then catch_finally abortError (set_stage i Settled s)
         else (case out of
                 JsonRejected err \<Rightarrow> catch_finally err (set_stage i Settled s)
               | Data response results \<Rightarrow>
                   if response = ''False'' then
                     catch_finally \<lparr>name = ''Error'', message = ''Movie not found''\<rparr>
                       (set_stage i Settled s)
                   else (set_stage i Settled s)
                          \<lparr>movies := results, error := [], isLoading := False\<rparr>))
      else s)"

subsection \<open>The Search component\<close>

text \<open>The \<open>keydown\<close> listener that the effect of \<open>Search\<close> installs on the document.\<close>

definition callback :: "string \<Rightarrow> app \<Rightarrow> app" where
  "callback code s =
     (if inputFocused s then s
      else if code = ''Enter'' then setQuery [] (s\<lparr>inputFocused := True\<rparr>)
      else s)"

subsection \<open>Rendering\<close>

text \<open>The three conditions under which \<open>App\<close> renders the loader, the list and the error.\<close>

definition showLoader :: "app \<Rightarrow> bool" where
  "showLoader s = isLoading s"

definition showResults :: "app \<Rightarrow> bool" where
  "showResults s = (\<not> isLoading s \<and> error s = [])"

definition showError :: "app \<Rightarrow> bool" where
  "showError s = (error s \<noteq> [])"

subsection \<open>Mounting and events\<close>

text \<open>
  Mounting initialises the state and renders. \<open>WatchedSummary\<close> maps over \<open>watched\<close>
  and reads a property of each element, so a stored value that is not an array, or an
  array with a \<open>null\<close> element, raises a TypeError in the first render. After the first
  render both effects run.
\<close>

definition initial :: "storage \<Rightarrow> json list \<Rightarrow> app" where
  "initial ls ws =
     \<lparr>movies = [], isLoading = False, error = [], query = [], selectedId = None,
      watched = ws, localStorage = ls, requests = [], cleanup = None, inputFocused = False\<rparr>"

definition mount :: "(utf16 \<Rightarrow> number) \<Rightarrow> storage \<Rightarrow> exn + app" where
  "mount N ls =
     (case loadInitial N ls of
        Inl e \<Rightarrow> Inl e
      | Inr v \<Rightarrow>
          (case v of
             JArr ws \<Rightarrow>
               if JNull \<in> set ws then Inl TypeError
               else Inr (queryEffect (persistEffect (initial ls ws)))
           | _ \<Rightarrow> Inl TypeError))"

text \<open>
  The events of a session: a change of the search input, a keydown on the document, the
  input gaining or losing the focus, a click on a movie of the list, closing the details,
  adding a record (an object, given by its fields), deleting the records with an id, and
  the settling of the two promises a fetch awaits. An exception that escapes a handler or
  the render ends the run.
\<close>

datatype event =
    ChangeQuery string
  | KeyDown string
  | Focus
  | Blur
  | SelectMovie string
  | CloseMovie
  | AddWatched "(utf16 \<times> json) list"
  | DeleteWatched string
  | FetchSettled nat fetch_outcome
  | JsonSettled nat json_outcome

fun step :: "event \<Rightarrow> app \<Rightarrow> exn + app" where
  "step (ChangeQuery q) s = Inr (setQuery q s)"
| "step (KeyDown code) s = Inr (callback code s)"
| "step Focus s = Inr (s\<lparr>inputFocused := True\<rparr>)"
| "step Blur s = Inr (s\<lparr>inputFocused := False\<rparr>)"
| "step (SelectMovie i) s = Inr (handleSelectMovie i s)"
| "step CloseMovie s = Inr (handleCloseMovie s)"
| "step (AddWatched kvs) s = Inr (persistEffect (handleAddWatched (JObj kvs) s))"
| "step (DeleteWatched i) s =
     (case handleDeleteWatched i s of
        Inl e \<Rightarrow> Inl e
      | Inr s' \<Rightarrow> Inr (persistEffect s'))"
| "step (FetchSettled i out) s = Inr (fetchSettled i out s)"
| "step (JsonSettled i out) s = Inr (jsonSettled i out s)"

fun run :: "event list \<Rightarrow> app \<Rightarrow> exn + app" where
  "run [] s = Inr s"
| "run (e # es) s = (case step e s of Inl x \<Rightarrow> Inl x | Inr s' \<Rightarrow> run es s')"

inductive reachable :: "app \<Rightarrow> bool" where
  mounted: "mount N ls = Inr s \<Longrightarrow> reachable s"
| stepped: "reachable s \<Longrightarrow> step e s = Inr s' \<Longrightarrow> reachable s'"

section \<open>Auxiliary definitions\<close>

subsection \<open>Invariant of the reachable states\<close>

text \<open>
  Every fetch other than the one the pending cleanup refers to is aborted or has
  settled; the fetch the cleanup refers to exists, is not aborted and was started for
  the current query; an empty query has no pending cleanup, no results and no error;
  the loading flag and an error message never hold together; while the loading flag is
  on, some fetch has not settled; the stored text is the serialisation of the watched
  list, which has no \<open>null\<close> element.
\<close>

definition stale_ok :: "request list \<Rightarrow> nat option \<Rightarrow> bool" where
  "stale_ok rs c = (\<forall>i<length rs. c \<noteq> Some i \<longrightarrow> aborted (rs ! i) \<or> stage (rs ! i) = Settled)"

definition current_ok :: "app \<Rightarrow> bool" where
  "current_ok s =
     (\<forall>i. cleanup s = Some i \<longrightarrow>
        i < length (requests s) \<and> \<not> aborted (requests s ! i) \<and> search (requests s ! i) = query s)"

definition loading_ok :: "app \<Rightarrow> bool" where
  "loading_ok s = (isLoading s \<longrightarrow> (\<exists>i<length (requests s). stage (requests s ! i) \<noteq> Settled))"

definition inv :: "app \<Rightarrow> bool" where
  "inv s =
     (stale_ok (requests s) (cleanup s) \<and> current_ok s \<and> loading_ok s \<and>
      (query s = [] \<longrightarrow> cleanup s = None \<and> movies s = [] \<and> error s = []) \<and>
      (query s \<noteq> [] \<longrightarrow> cleanup s \<noteq> None) \<and>
      \<not> (isLoading s \<and> error s \<noteq> []) \<and>
      localStorage s ''watched'' = Some (JSON_stringify (JArr (watched s))) \<and>
      JNull \<notin> set (watched s))"

subsection \<open>The tokens of a value\<close>

text \<open>
  \<open>tokens\<close> gives the tokens that the serialisation of a value consists of. \<open>delim\<close>
  holds for the texts that may follow a serialised value: the end of the text, a comma or
  a closing bracket. \<open>js_value N\<close> holds for the values that \<open>JSON.stringify\<close> writes
  without loss: every string and key is a sequence of 16-bit code units; every number is
  finite and not \<open>-0\<close>, its text is a number literal, and the conversion \<open>N\<close> gives the
  number back from its text, which the platform guarantees for the text it writes for a
  finite number; the keys of an object are distinct and in the order in which the
  platform enumerates them, as is the case for every object of the platform. A number
  that is not finite, \<open>-0\<close>, and a text such as \<open>1e400\<close> or \<open>1.0e2\<close>, which the platform
  writes for no number, are not such values.
\<close>

definition number_token :: "utf16 \<Rightarrow> bool" where
  "number_token t = (lex_number t = Some (t, []))"




definition is_text :: "utf16 \<Rightarrow> bool" where
  "is_text s = (\<forall>c\<in>set s. c < 65536)"

fun key_order :: "utf16 list \<Rightarrow> bool" where
  "key_order [] = True"
| "key_order [k] = True"
| "key_order (k # k' # ks) =
     ((is_index k' \<longrightarrow> is_index k \<and> digits_val k < digits_val k') \<and> key_order (k' # ks))"

fun js_value :: "(utf16 \<Rightarrow> number) \<Rightarrow> json \<Rightarrow> bool" where
  "js_value N (JArr vs) = (\<forall>v\<in>set vs. js_value N v)"
| "js_value N (JObj kvs) =
     (distinct (map fst kvs) \<and> key_order (map fst kvs) \<and>
      (\<forall>kv\<in>set kvs. is_text (fst kv) \<and> js_value N (snd kv)))"
| "js_value N (JNum x) =
     (case x of Finite t \<Rightarrow> number_token t \<and> N t = Finite t | _ \<Rightarrow> False)"
| "js_value N (JStr s) = is_text s"
| "js_value N v = True"

definition continue :: "(mode \<times> frame list) option \<Rightarrow> token list \<Rightarrow> json option" where
  "continue r ts = (case r of None \<Rightarrow> None | Some (m, stk) \<Rightarrow> parse_tokens m stk ts)"

subsection \<open>Records that carry the identifier of a given record\<close>

definition records_with :: "json \<Rightarrow> json list \<Rightarrow> json list" where
  "records_with r ws = filter (\<lambda>m. imdbID_of m = imdbID_of r) ws"

subsection \<open>The idle state of the fetch pipeline\<close>

text \<open>
  The pipeline is idle when the query is empty, the loading flag is off, the result list
  is empty and no error is recorded.
\<close>

definition idle :: "app \<Rightarrow> bool" where
  "idle s = (query s = [] \<and> \<not> isLoading s \<and> movies s = [] \<and> error s = [])"

subsection \<open>Concrete states and values\<close>

text \<open>
  \<open>fresh\<close> is the state after mounting on an empty storage, \<open>searching\<close> the state after
  one query was typed, \<open>found\<close> the state after its fetch delivered a result, \<open>failed\<close> the
  state after its fetch delivered a response that is not ok, \<open>typing_ab\<close> the state after
  \<open>a\<close> and then \<open>ab\<close> were typed with no response in between, \<open>added2 r1 r2\<close> the state
  after two records were added.
\<close>

definition fresh :: app where
  "fresh = queryEffect (persistEffect (initial Map.empty []))"

definition searching :: app where
  "searching = setQuery ''batman'' fresh"

definition batman :: movie where
  "batman = \<lparr>imdbID = ''tt1'', Title = ''Batman'', Year = ''1989'', Poster = ''N/A''\<rparr>"

definition found :: app where
  "found = jsonSettled 0 (Data ''True'' [batman]) (fetchSettled 0 (Response True) searching)"

definition failed :: app where
  "failed = fetchSettled 0 (Response False) searching"

definition typing_ab :: app where
  "typing_ab = setQuery ''ab'' (setQuery ''a'' fresh)"

definition tt1_fields :: "(utf16 \<times> json) list" where
  "tt1_fields =
     [(units ''imdbID'', JStr (units ''tt1'')),
      (units ''userRating'', JNum (Finite (units ''8''))),
      (units ''imdbRating'', JNum (Finite (units ''8.5'')))]"

definition tt2_fields :: "(utf16 \<times> json) list" where
  "tt2_fields = [(units ''imdbID'', JStr (units ''tt2'')), (units ''Title'', JStr (units ''Up''))]"

definition tt1 :: json where
  "tt1 = JObj tt1_fields"

definition added2 :: "(utf16 \<times> json) list \<Rightarrow> (utf16 \<times> json) list \<Rightarrow> app" where
  "added2 r1 r2 =
     persistEffect (handleAddWatched (JObj r2) (persistEffect (handleAddWatched (JObj r1) fresh)))"



definition overflowing :: storage where
  "overflowing = [''watched'' \<mapsto> units ''[1e400]'']"

text \<open>
  A conversion of number literals for the examples. It agrees with the platform on the
  literals that are the text of the number they denote, such as \<open>0\<close>, \<open>8\<close> and \<open>8.5\<close>,
  and on \<open>1e400\<close>, which is out of range; the examples use no other literal.
\<close>

definition example_number :: "utf16 \<Rightarrow> number" where
  "example_number t = (if t = units ''1e400'' then NonFinite else Finite t)"

lemmas app_defs =
  setQuery_def queryEffect_def runCleanup_def abort_def fetchMovies_start_def
  handleCloseMovie_def persistEffect_def initial_def fresh_def searching_def typing_ab_def
  fetchSettled_def jsonSettled_def catch_finally_def set_stage_def abortError_def
  showLoader_def showResults_def showError_def callback_def found_def failed_def idle_def


section \<open>Parsing a serialised value gives the value back\<close>

subsection \<open>Numbers\<close>














subsection \<open>Strings\<close>









subsection \<open>The lexer on the first code unit\<close>






subsection \<open>The lexer on a serialised value\<close>




subsection \<open>The parser on the tokens of a value\<close>

lemma parse_tokens_Cons: "parse_tokens m stk (t # ts) = continue (parse_step m t stk) ts"
  by (simp add: continue_def)









section \<open>The invariant holds in every reachable state\<close>

lemma abortError_name [simp]: "name abortError = ''AbortError''"
  by (simp add: abortError_def)

lemma stale_ok_runCleanup: "stale_ok (requests s) (cleanup s) \<Longrightarrow> stale_ok (requests (runCleanup s)) None"
  by (auto simp: stale_ok_def runCleanup_def abort_def nth_list_update split: option.splits)

lemma runCleanup_stage [simp]:
  "stage (requests (runCleanup s) ! i) = stage (requests s ! i)"
  by (cases "i = the (cleanup s)") (auto simp: runCleanup_def abort_def split: option.splits)

lemma runCleanup_fields [simp]:
  "movies (runCleanup s) = movies s" "error (runCleanup s) = error s"
  "isLoading (runCleanup s) = isLoading s" "query (runCleanup s) = query s"
  "watched (runCleanup s) = watched s" "localStorage (runCleanup s) = localStorage s"
  "cleanup (runCleanup s) = cleanup s" "selectedId (runCleanup s) = selectedId s"
  "inputFocused (runCleanup s) = inputFocused s"
  "length (requests (runCleanup s)) = length (requests s)"
  by (simp_all add: runCleanup_def abort_def split: option.splits)

lemma loading_ok_runCleanup: "loading_ok s \<Longrightarrow> loading_ok ((runCleanup s)\<lparr>query := q\<rparr>)"
  by (simp add: loading_ok_def)

lemma inv_queryEffect:
  assumes "stale_ok (requests s) None" and "loading_ok s"
    and "localStorage s ''watched'' = Some (JSON_stringify (JArr (watched s)))"
    and "JNull \<notin> set (watched s)"
  shows "inv (queryEffect s)"
proof (cases "query s = []")
  case True
  with assms show ?thesis
    by (simp add: inv_def queryEffect_def stale_ok_def current_ok_def loading_ok_def)
next
  case False
  have "loading_ok (queryEffect s)"
    using False
    by (auto simp: queryEffect_def loading_ok_def fetchMovies_start_def handleCloseMovie_def
        intro!: exI [of _ "length (requests s)"])
  moreover have "stale_ok (requests (queryEffect s)) (cleanup (queryEffect s))"
    using False assms(1)
    by (auto simp: queryEffect_def stale_ok_def fetchMovies_start_def handleCloseMovie_def
        nth_append)
  ultimately show ?thesis
    using False assms(3,4)
    by (simp add: inv_def) (simp add: queryEffect_def current_ok_def fetchMovies_start_def
        handleCloseMovie_def)
qed

lemma inv_setQuery: "inv s \<Longrightarrow> inv (setQuery q s)"
proof -
  assume i: "inv s"
  show ?thesis
  proof (cases "q = query s")
    case True
    with i show ?thesis by (simp add: setQuery_def)
  next
    case False
    have "stale_ok (requests ((runCleanup s)\<lparr>query := q\<rparr>)) None"
      using i stale_ok_runCleanup [of s] by (simp add: inv_def)
    then have "inv (queryEffect ((runCleanup s)\<lparr>query := q\<rparr>))"
      using i by (intro inv_queryEffect loading_ok_runCleanup) (simp_all add: inv_def)
    with False show ?thesis by (simp add: setQuery_def)
  qed
qed

lemma inv_callback: "inv s \<Longrightarrow> inv (callback code s)"
proof -
  assume i: "inv s"
  then have "inv (s\<lparr>inputFocused := True\<rparr>)"
    by (simp add: inv_def current_ok_def loading_ok_def)
  then have "inv (setQuery [] (s\<lparr>inputFocused := True\<rparr>))"
    by (rule inv_setQuery)
  with i show ?thesis by (simp add: callback_def)
qed

lemma inv_catch_finally_abort:
  "inv s \<Longrightarrow> i < length (requests s) \<Longrightarrow> inv (catch_finally abortError (set_stage i Settled s))"
  by (auto simp: inv_def catch_finally_def set_stage_def stale_ok_def current_ok_def loading_ok_def
      nth_list_update split: option.splits)

lemma current_is_cleanup:
  "inv s \<Longrightarrow> i < length (requests s) \<Longrightarrow> \<not> aborted (requests s ! i) \<Longrightarrow>
   stage (requests s ! i) \<noteq> Settled \<Longrightarrow> cleanup s = Some i \<and> query s \<noteq> []"
  by (auto simp: inv_def stale_ok_def)

lemma inv_catch_finally_current:
  "inv s \<Longrightarrow> cleanup s = Some i \<Longrightarrow> inv (catch_finally err (set_stage i st s))"
  by (auto simp: inv_def catch_finally_def set_stage_def stale_ok_def current_ok_def loading_ok_def
      nth_list_update split: option.splits)

lemma loading_ok_set_stage:
  assumes "i < length (requests s)" and "st \<noteq> Settled"
  shows "loading_ok (set_stage i st s)"
  using assms by (auto simp: loading_ok_def set_stage_def intro!: exI [of _ i])

lemma inv_set_stage_current:
  assumes "inv s" and "cleanup s = Some i"
  shows "inv (set_stage i AwaitJson s)"
proof -
  from assms have "i < length (requests s)"
    by (simp add: inv_def current_ok_def)
  then have "loading_ok (set_stage i AwaitJson s)"
    by (intro loading_ok_set_stage) simp_all
  moreover have "stale_ok (requests (set_stage i AwaitJson s)) (cleanup (set_stage i AwaitJson s))"
    using assms by (auto simp: inv_def set_stage_def stale_ok_def nth_list_update)
  moreover have "current_ok (set_stage i AwaitJson s)"
    using assms by (auto simp: inv_def set_stage_def current_ok_def nth_list_update)
  ultimately show ?thesis
    using assms(1) by (simp add: inv_def) (simp add: set_stage_def)
qed

lemma inv_success:
  "inv s \<Longrightarrow> cleanup s = Some i \<Longrightarrow>
   inv ((set_stage i st s)\<lparr>movies := rs, error := [], isLoading := False\<rparr>)"
  by (auto simp: inv_def set_stage_def stale_ok_def current_ok_def loading_ok_def nth_list_update
      split: option.splits)

lemma inv_fetchSettled: "inv s \<Longrightarrow> inv (fetchSettled i out s)"
proof -
  assume i: "inv s"
  show ?thesis
  proof (cases "i < length (requests s) \<and> stage (requests s ! i) = AwaitFetch")
    case False
    with i show ?thesis by (auto simp: fetchSettled_def)
  next
    case True
    show ?thesis
    proof (cases "aborted (requests s ! i)")
      case True
      with \<open>i < length (requests s) \<and> stage (requests s ! i) = AwaitFetch\<close> i show ?thesis
        by (simp add: fetchSettled_def inv_catch_finally_abort)
    next
      case False
      with True i have c: "cleanup s = Some i"
        using current_is_cleanup [of s i] by simp
      with True False i show ?thesis
        by (simp add: fetchSettled_def inv_catch_finally_current inv_set_stage_current
            split: fetch_outcome.splits)
    qed
  qed
qed

lemma inv_jsonSettled: "inv s \<Longrightarrow> inv (jsonSettled i out s)"
proof -
  assume i: "inv s"
  show ?thesis
  proof (cases "i < length (requests s) \<and> stage (requests s ! i) = AwaitJson")
    case False
    with i show ?thesis by (auto simp: jsonSettled_def)
  next
    case True
    show ?thesis
    proof (cases "aborted (requests s ! i)")
      case True
      with \<open>i < length (requests s) \<and> stage (requests s ! i) = AwaitJson\<close> i show ?thesis
        by (simp add: jsonSettled_def inv_catch_finally_abort)
    next
      case False
      with True i have c: "cleanup s = Some i"
        using current_is_cleanup [of s i] by simp
      with True False i show ?thesis
        by (simp add: jsonSettled_def inv_catch_finally_current inv_success
            split: json_outcome.splits)
    qed
  qed
qed

lemma imdbID_of_defined: "m \<noteq> JNull \<Longrightarrow> \<exists>x. imdbID_of m = Inr x"
  by (cases m) simp_all

lemma filter_watched_subset:
  "filter_watched i ws = Inr r \<Longrightarrow> set r \<subseteq> set ws"
  by (induction ws arbitrary: r) (auto split: sum.splits if_splits)

lemma inv_persist:
  "inv s \<Longrightarrow> JNull \<notin> set ws \<Longrightarrow> inv (persistEffect (s\<lparr>watched := ws\<rparr>))"
  by (simp add: inv_def persistEffect_def current_ok_def loading_ok_def)

lemma inv_step: "inv s \<Longrightarrow> step e s = Inr s' \<Longrightarrow> inv s'"
proof (cases e)
  case (ChangeQuery q)
  assume "inv s" "step e s = Inr s'"
  with ChangeQuery show ?thesis by (auto simp: inv_setQuery)
next
  case (KeyDown code)
  assume "inv s" "step e s = Inr s'"
  with KeyDown show ?thesis by (auto simp: inv_callback)
next
  case Focus
  assume "inv s" "step e s = Inr s'"
  with Focus show ?thesis by (auto simp: inv_def current_ok_def loading_ok_def)
next
  case Blur
  assume "inv s" "step e s = Inr s'"
  with Blur show ?thesis by (auto simp: inv_def current_ok_def loading_ok_def)
next
  case (SelectMovie i)
  assume "inv s" "step e s = Inr s'"
  with SelectMovie show ?thesis by (auto simp: inv_def current_ok_def loading_ok_def handleSelectMovie_def)
next
  case CloseMovie
  assume "inv s" "step e s = Inr s'"
  with CloseMovie show ?thesis by (auto simp: inv_def current_ok_def loading_ok_def handleCloseMovie_def)
next
  case (AddWatched kvs)
  assume i: "inv s" and st: "step e s = Inr s'"
  from i have "JNull \<notin> set (watched s @ [JObj kvs])" by (simp add: inv_def)
  with i have "inv (persistEffect (s\<lparr>watched := watched s @ [JObj kvs]\<rparr>))"
    by (rule inv_persist)
  with st AddWatched show ?thesis by (auto simp: handleAddWatched_def)
next
  case (DeleteWatched i)
  assume i: "inv s" and st: "step e s = Inr s'"
  from st DeleteWatched obtain ws where f: "filter_watched i (watched s) = Inr ws"
    and s': "s' = persistEffect (s\<lparr>watched := ws\<rparr>)"
    by (auto simp: handleDeleteWatched_def split: sum.splits)
  from f i have "JNull \<notin> set ws"
    using filter_watched_subset [of i "watched s" ws] by (auto simp: inv_def)
  with i s' show ?thesis by (simp add: inv_persist)
next
  case (FetchSettled i out)
  assume "inv s" "step e s = Inr s'"
  with FetchSettled show ?thesis by (auto simp: inv_fetchSettled)
next
  case (JsonSettled i out)
  assume "inv s" "step e s = Inr s'"
  with JsonSettled show ?thesis by (auto simp: inv_jsonSettled)
qed

lemma inv_mount: "mount N ls = Inr s \<Longrightarrow> inv s"
proof -
  assume m: "mount N ls = Inr s"
  then obtain ws where s: "s = queryEffect (persistEffect (initial ls ws))" and n: "JNull \<notin> set ws"
    by (auto simp: mount_def split: sum.splits json.splits if_splits)
  have "inv (queryEffect (persistEffect (initial ls ws)))"
    using n
    by (intro inv_queryEffect) (simp_all add: persistEffect_def initial_def stale_ok_def loading_ok_def)
  with s show ?thesis by simp
qed

lemma reachable_inv: "reachable s \<Longrightarrow> inv s"
  by (induction rule: reachable.induct) (auto intro: inv_mount inv_step)

section \<open>Concrete runs\<close>

lemma mount_fresh: "mount N Map.empty = Inr fresh"
  by (simp add: mount_def loadInitial_def fresh_def)

lemma reachable_fresh: "reachable fresh"
  using mount_fresh by (rule reachable.mounted)

lemma reachable_searching: "reachable searching"
  unfolding searching_def
  using reachable_fresh by (rule reachable.stepped [where e = "ChangeQuery ''batman''"]) simp

lemma reachable_found: "reachable found"
proof -
  have "reachable (fetchSettled 0 (Response True) searching)"
    using reachable_searching
    by (rule reachable.stepped [where e = "FetchSettled 0 (Response True)"]) simp
  then show ?thesis
    unfolding found_def
    by (rule reachable.stepped [where e = "JsonSettled 0 (Data ''True'' [batman])"]) simp
qed

lemma reachable_failed: "reachable failed"
  unfolding failed_def
  using reachable_searching
  by (rule reachable.stepped [where e = "FetchSettled 0 (Response False)"]) simp

lemma reachable_typing_ab: "reachable typing_ab"
proof -
  have "reachable (setQuery ''a'' fresh)"
    using reachable_fresh by (rule reachable.stepped [where e = "ChangeQuery ''a''"]) simp
  then show ?thesis
    unfolding typing_ab_def
    by (rule reachable.stepped [where e = "ChangeQuery ''ab''"]) simp
qed

section \<open>The fetch pipeline\<close>

subsection \<open>Superseded requests\<close>

text \<open>
  The settlement of a fetch that is not the latest one never changes the result list or
  the error message, and once the latest fetch has settled (the loading flag is off) it
  changes none of the three state variables of the pipeline.
\<close>

lemma stale_settlement_keeps_results:
  assumes "inv s" and "cleanup s \<noteq> Some i"
  shows "movies (fetchSettled i fo s) = movies s \<and> error (fetchSettled i fo s) = error s \<and>
         movies (jsonSettled i jo s) = movies s \<and> error (jsonSettled i jo s) = error s"
proof -
  have "i < length (requests s) \<Longrightarrow> stage (requests s ! i) \<noteq> Settled \<Longrightarrow> aborted (requests s ! i)"
    using assms current_is_cleanup [of s i] by auto
  then show ?thesis
    by (auto simp: fetchSettled_def jsonSettled_def catch_finally_def set_stage_def abortError_def)
qed

lemma stale_settlement_after_latest:
  assumes "inv s" and "cleanup s \<noteq> Some i" and "\<not> isLoading s"
  shows "movies (fetchSettled i fo s) = movies s \<and> error (fetchSettled i fo s) = error s \<and>
         isLoading (fetchSettled i fo s) = isLoading s \<and>
         movies (jsonSettled i jo s) = movies s \<and> error (jsonSettled i jo s) = error s \<and>
         isLoading (jsonSettled i jo s) = isLoading s"
proof -
  have "i < length (requests s) \<Longrightarrow> stage (requests s ! i) \<noteq> Settled \<Longrightarrow> aborted (requests s ! i)"
    using assms current_is_cleanup [of s i] by auto
  with assms(3) show ?thesis
    by (auto simp: fetchSettled_def jsonSettled_def catch_finally_def set_stage_def abortError_def)
qed

text \<open>
  The settlement of an awaited fetch that is not the latest one switches the loading flag
  off, whatever the state of the latest fetch.
\<close>

lemma stale_settlement_switches_loading_off:
  assumes "inv s" and "cleanup s \<noteq> Some i" and "i < length (requests s)"
    and "stage (requests s ! i) = AwaitFetch"
  shows "\<not> isLoading (fetchSettled i fo s)"
proof -
  have "aborted (requests s ! i)"
    using assms current_is_cleanup [of s i] by auto
  with assms(3,4) show ?thesis
    by (simp add: fetchSettled_def catch_finally_def)
qed

text \<open>
  C1. A response that belongs to a superseded request never changes the state of the
  fetch pipeline. The code at the run below: after mounting, \<open>a\<close> is typed and then
  \<open>ab\<close> before any response; the first fetch is aborted, the second one is in flight and
  the loader is shown. When the aborted first fetch settles, the \<open>finally\<close> block of
  \<open>fetchMovies\<close> switches the loading flag off: the loader disappears and the result
  list is rendered although the fetch for \<open>ab\<close> is still awaited.
\<close>

theorem superseded_settlement_resets_loading:
  "(\<forall>N. mount N Map.empty = Inr fresh) \<and>
   run [ChangeQuery ''a'', ChangeQuery ''ab''] fresh = Inr typing_ab \<and>
   aborted (requests typing_ab ! 0) \<and>
   search (requests typing_ab ! 1) = ''ab'' \<and>
   \<not> aborted (requests typing_ab ! 1) \<and>
   showLoader typing_ab \<and>
   \<not> showLoader (fetchSettled 0 (Response True) typing_ab) \<and>
   showResults (fetchSettled 0 (Response True) typing_ab) \<and>
   stage (requests (fetchSettled 0 (Response True) typing_ab) ! 1) = AwaitFetch"
proof -
  have "run [ChangeQuery ''a'', ChangeQuery ''ab''] fresh = Inr typing_ab"
    by (simp add: typing_ab_def)
  moreover have "aborted (requests typing_ab ! 0) \<and> search (requests typing_ab ! 1) = ''ab'' \<and>
      \<not> aborted (requests typing_ab ! 1) \<and> showLoader typing_ab"
    by (simp add: app_defs)
  moreover have "\<not> showLoader (fetchSettled 0 (Response True) typing_ab) \<and>
      showResults (fetchSettled 0 (Response True) typing_ab) \<and>
      stage (requests (fetchSettled 0 (Response True) typing_ab) ! 1) = AwaitFetch"
    by (simp add: app_defs)
  ultimately show ?thesis
    by (simp add: mount_fresh)
qed

subsection \<open>The empty query\<close>

text \<open>
  C2. When the query becomes empty the result list becomes empty, the recorded error is
  cleared and no request is issued: the list of fetches keeps its length, no cleanup is
  pending and every earlier fetch is aborted or has settled. The branch of the effect for
  the empty query does not write the loading flag. When the flag is off the pipeline is
  idle at once. When it is on, a fetch that the cleanup has aborted is still awaited, and
  the settlement of any fetch that is still awaited, which runs the \<open>finally\<close> block of
  \<open>fetchMovies\<close>, leaves the pipeline idle.
\<close>

theorem empty_query_resets:
  assumes "reachable s"
  shows "query (setQuery [] s) = [] \<and> movies (setQuery [] s) = [] \<and> error (setQuery [] s) = [] \<and>
         length (requests (setQuery [] s)) = length (requests s) \<and>
         cleanup (setQuery [] s) = None \<and> stale_ok (requests (setQuery [] s)) None \<and>
         isLoading (setQuery [] s) = isLoading s \<and>
         (\<not> isLoading s \<longrightarrow> idle (setQuery [] s)) \<and>
         (isLoading s \<longrightarrow>
            (\<exists>i<length (requests s).
               aborted (requests (setQuery [] s) ! i) \<and>
               stage (requests (setQuery [] s) ! i) \<noteq> Settled)) \<and>
         (\<forall>i fo. i < length (requests s) \<and> stage (requests (setQuery [] s) ! i) = AwaitFetch \<longrightarrow>
            idle (fetchSettled i fo (setQuery [] s))) \<and>
         (\<forall>i jo. i < length (requests s) \<and> stage (requests (setQuery [] s) ! i) = AwaitJson \<longrightarrow>
            idle (jsonSettled i jo (setQuery [] s)))"
proof -
  let ?s = "setQuery [] s"
  have i: "inv s" using assms by (rule reachable_inv)
  then have i': "inv ?s" by (rule inv_setQuery)
  have basic: "query ?s = [] \<and> movies ?s = [] \<and> error ?s = [] \<and>
      length (requests ?s) = length (requests s) \<and> cleanup ?s = None \<and>
      stale_ok (requests ?s) None \<and> isLoading ?s = isLoading s"
  proof (cases "query s = []")
    case True
    with i show ?thesis
      by (auto simp: setQuery_def inv_def)
  next
    case False
    have "stale_ok (requests (runCleanup s)) None"
      using i by (simp add: inv_def stale_ok_runCleanup)
    with False show ?thesis
      by (simp add: setQuery_def queryEffect_def)
  qed
  have ab: "aborted (requests ?s ! j)" if "j < length (requests s)" "stage (requests ?s ! j) \<noteq> Settled" for j
    using basic that by (auto simp: stale_ok_def)
  have off: "\<not> isLoading s \<longrightarrow> idle ?s"
    using basic by (simp add: idle_def)
  have on: "isLoading s \<longrightarrow>
      (\<exists>j<length (requests s). aborted (requests ?s ! j) \<and> stage (requests ?s ! j) \<noteq> Settled)"
  proof
    assume "isLoading s"
    with basic i' obtain j where "j < length (requests s)" "stage (requests ?s ! j) \<noteq> Settled"
      by (auto simp: inv_def loading_ok_def)
    with ab [of j] show "\<exists>j<length (requests s). aborted (requests ?s ! j) \<and> stage (requests ?s ! j) \<noteq> Settled"
      by blast
  qed
  have f: "idle (fetchSettled j fo ?s)" if "j < length (requests s)" "stage (requests ?s ! j) = AwaitFetch" for j fo
    using basic that ab [of j]
    by (simp add: idle_def fetchSettled_def catch_finally_def set_stage_def)
  have g: "idle (jsonSettled j jo ?s)" if "j < length (requests s)" "stage (requests ?s ! j) = AwaitJson" for j jo
    using basic that ab [of j]
    by (simp add: idle_def jsonSettled_def catch_finally_def set_stage_def)
  from basic off on f g show ?thesis
    by blast
qed

theorem empty_query_resets_witness:
  "reachable found \<and> movies found = [batman] \<and> \<not> isLoading found \<and>
   movies (setQuery [] found) = [] \<and> idle (setQuery [] found) \<and>
   reachable failed \<and> error failed = ''Something went wrong while fetching movies'' \<and>
   error (setQuery [] failed) = [] \<and> idle (setQuery [] failed) \<and>
   reachable searching \<and> isLoading searching \<and> isLoading (setQuery [] searching) \<and>
   length (requests (setQuery [] searching)) = length (requests searching) \<and>
   aborted (requests (setQuery [] searching) ! 0) \<and>
   stage (requests (setQuery [] searching) ! 0) = AwaitFetch \<and>
   idle (fetchSettled 0 (Response True) (setQuery [] searching))"
proof -
  have a: "movies found = [batman] \<and> \<not> isLoading found"
    by (simp add: app_defs)
  have b: "error failed = ''Something went wrong while fetching movies'' \<and> \<not> isLoading failed"
    by (simp add: app_defs)
  have c: "isLoading searching \<and> 0 < length (requests searching) \<and>
      aborted (requests (setQuery [] searching) ! 0) \<and>
      stage (requests (setQuery [] searching) ! 0) = AwaitFetch"
    by (simp add: app_defs)
  from empty_query_resets [OF reachable_found] a
  have a': "movies (setQuery [] found) = [] \<and> idle (setQuery [] found)"
    by blast
  from empty_query_resets [OF reachable_failed] b
  have b': "error (setQuery [] failed) = [] \<and> idle (setQuery [] failed)"
    by blast
  from empty_query_resets [OF reachable_searching] c
  have c': "isLoading (setQuery [] searching) \<and>
      length (requests (setQuery [] searching)) = length (requests searching) \<and>
      idle (fetchSettled 0 (Response True) (setQuery [] searching))"
    by blast
  from a b c a' b' c' reachable_found reachable_failed reachable_searching show ?thesis
    by blast
qed

subsection \<open>Cancellation is not a failure\<close>

text \<open>
  C5. The settlement of an aborted fetch never writes the error message, and neither
  does the settlement of a fetch that a newer query has superseded; the error message
  changes to a non-empty text only when a fetch that is not aborted settles with a
  rejection that is not an AbortError, with a response that is not ok, or with the
  not-found marker.
\<close>

theorem cancellation_not_failure:
  "(aborted (requests s ! i) \<longrightarrow>
      error (fetchSettled i fo s) = error s \<and> error (jsonSettled i jo s) = error s) \<and>
   (reachable s \<and> cleanup s \<noteq> Some i \<longrightarrow>
      error (fetchSettled i fo s) = error s \<and> error (jsonSettled i jo s) = error s) \<and>
   (error (fetchSettled i fo s) \<noteq> error s \<and> error (fetchSettled i fo s) \<noteq> [] \<longrightarrow>
      \<not> aborted (requests s ! i) \<and>
      (fo = Response False \<or> (\<exists>err. fo = FetchRejected err \<and> name err \<noteq> ''AbortError''))) \<and>
   (error (jsonSettled i jo s) \<noteq> error s \<and> error (jsonSettled i jo s) \<noteq> [] \<longrightarrow>
      \<not> aborted (requests s ! i) \<and>
      ((\<exists>rs. jo = Data ''False'' rs) \<or> (\<exists>err. jo = JsonRejected err \<and> name err \<noteq> ''AbortError'')))"
proof -
  have a: "aborted (requests s ! i) \<longrightarrow>
      error (fetchSettled i fo s) = error s \<and> error (jsonSettled i jo s) = error s"
    by (auto simp: fetchSettled_def jsonSettled_def catch_finally_def set_stage_def)
  have b: "reachable s \<and> cleanup s \<noteq> Some i \<longrightarrow>
      error (fetchSettled i fo s) = error s \<and> error (jsonSettled i jo s) = error s"
    using stale_settlement_keeps_results [of s i fo jo] reachable_inv [of s] by blast
  have c: "error (fetchSettled i fo s) \<noteq> error s \<and> error (fetchSettled i fo s) \<noteq> [] \<longrightarrow>
      \<not> aborted (requests s ! i) \<and>
      (fo = Response False \<or> (\<exists>err. fo = FetchRejected err \<and> name err \<noteq> ''AbortError''))"
    by (auto simp: fetchSettled_def catch_finally_def set_stage_def
        split: fetch_outcome.splits if_splits)
  have d: "error (jsonSettled i jo s) \<noteq> error s \<and> error (jsonSettled i jo s) \<noteq> [] \<longrightarrow>
      \<not> aborted (requests s ! i) \<and>
      ((\<exists>rs. jo = Data ''False'' rs) \<or> (\<exists>err. jo = JsonRejected err \<and> name err \<noteq> ''AbortError''))"
    by (auto simp: jsonSettled_def catch_finally_def set_stage_def
        split: json_outcome.splits if_splits)
  from a b c d show ?thesis by (intro conjI)
qed

theorem cancellation_not_failure_witness:
  "aborted (requests typing_ab ! 0) \<and> reachable typing_ab \<and> cleanup typing_ab \<noteq> Some 0 \<and>
   error (fetchSettled 0 (Response False) typing_ab) = error typing_ab \<and>
   error (fetchSettled 0 (Response False) searching) \<noteq> error searching \<and>
   error (fetchSettled 0 (Response False) searching) \<noteq> [] \<and>
   \<not> aborted (requests searching ! 0)"
proof -
  have a: "aborted (requests typing_ab ! 0) \<and> cleanup typing_ab \<noteq> Some 0"
    by (simp add: app_defs)
  have b: "error (fetchSettled 0 (Response False) searching) \<noteq> error searching \<and>
      error (fetchSettled 0 (Response False) searching) \<noteq> []"
    by (simp add: app_defs)
  from cancellation_not_failure [of typing_ab 0 "Response False" "Data ''False'' []"] a
  have c: "error (fetchSettled 0 (Response False) typing_ab) = error typing_ab"
    by blast
  from cancellation_not_failure [of searching 0 "Response False" "Data ''False'' []"] b
  have "\<not> aborted (requests searching ! 0)"
    by blast
  with a b c reachable_typing_ab show ?thesis by blast
qed

subsection \<open>Outcomes of a completed fetch\<close>

text \<open>
  C6. For a fetch that is awaited and not aborted: a response that is not ok gives the
  error message \<open>Something went wrong while fetching movies\<close>; an ok response whose
  body has \<open>Response\<close> equal to \<open>False\<close> gives the error message \<open>Movie not found\<close>; an ok
  response with results stores them and clears the error. In each case the loading flag
  is switched off.
\<close>

theorem completed_fetch_outcomes:
  assumes "i < length (requests s)" and "stage (requests s ! i) = AwaitFetch"
    and "\<not> aborted (requests s ! i)"
  shows "(error (fetchSettled i (Response False) s) = ''Something went wrong while fetching movies'' \<and>
          \<not> isLoading (fetchSettled i (Response False) s)) \<and>
         (error (jsonSettled i (Data ''False'' rs) (fetchSettled i (Response True) s)) = ''Movie not found'' \<and>
          \<not> isLoading (jsonSettled i (Data ''False'' rs) (fetchSettled i (Response True) s))) \<and>
         (response \<noteq> ''False'' \<longrightarrow>
            movies (jsonSettled i (Data response rs) (fetchSettled i (Response True) s)) = rs \<and>
            error (jsonSettled i (Data response rs) (fetchSettled i (Response True) s)) = [] \<and>
            \<not> isLoading (jsonSettled i (Data response rs) (fetchSettled i (Response True) s)))"
  using assms
  by (simp add: fetchSettled_def jsonSettled_def catch_finally_def set_stage_def)

theorem completed_fetch_outcomes_witness:
  "0 < length (requests searching) \<and> stage (requests searching ! 0) = AwaitFetch \<and>
   \<not> aborted (requests searching ! 0) \<and> ''True'' \<noteq> ''False'' \<and>
   error (fetchSettled 0 (Response False) searching) = ''Something went wrong while fetching movies'' \<and>
   error (jsonSettled 0 (Data ''False'' []) (fetchSettled 0 (Response True) searching)) = ''Movie not found'' \<and>
   movies (jsonSettled 0
     (Data ''True'' [\<lparr>imdbID = ''tt1'', Title = ''Batman'', Year = ''1989'', Poster = ''N/A''\<rparr>])
     (fetchSettled 0 (Response True) searching)) =
     [\<lparr>imdbID = ''tt1'', Title = ''Batman'', Year = ''1989'', Poster = ''N/A''\<rparr>]"
proof -
  have h1: "0 < length (requests searching)"
    by (simp add: app_defs)
  have h2: "stage (requests searching ! 0) = AwaitFetch"
    by (simp add: app_defs)
  have h3: "\<not> aborted (requests searching ! 0)"
    by (simp add: app_defs)
  have h4: "''True'' \<noteq> ''False''"
    by simp
  from completed_fetch_outcomes [OF h1 h2 h3, of "[]" "''True''"]
  have a: "error (fetchSettled 0 (Response False) searching) = ''Something went wrong while fetching movies'' \<and>
      error (jsonSettled 0 (Data ''False'' []) (fetchSettled 0 (Response True) searching)) = ''Movie not found''"
    by blast
  from completed_fetch_outcomes
    [OF h1 h2 h3, of "[\<lparr>imdbID = ''tt1'', Title = ''Batman'', Year = ''1989'', Poster = ''N/A''\<rparr>]" "''True''"] h4
  have "movies (jsonSettled 0
     (Data ''True'' [\<lparr>imdbID = ''tt1'', Title = ''Batman'', Year = ''1989'', Poster = ''N/A''\<rparr>])
     (fetchSettled 0 (Response True) searching)) =
     [\<lparr>imdbID = ''tt1'', Title = ''Batman'', Year = ''1989'', Poster = ''N/A''\<rparr>]"
    by blast
  with a h1 h2 h3 h4 show ?thesis by blast
qed

section \<open>Rendering\<close>




section \<open>Selection\<close>

text \<open>
  C9. For every id, \<open>select(id)\<close> from \<open>Open(id)\<close> leads to \<open>Closed\<close> and from every other
  state to \<open>Open(id)\<close>; so \<open>select(id)\<close> twice from \<open>Closed\<close> ends in \<open>Closed\<close>, and \<open>close()\<close>
  in \<open>Closed\<close> changes nothing.
\<close>

theorem select_toggles:
  "selectedId (handleSelectMovie i s) = (if selectedId s = Some i then None else Some i) \<and>
   selectedId (handleSelectMovie i (handleSelectMovie i (s\<lparr>selectedId := None\<rparr>))) = None \<and>
   handleCloseMovie (s\<lparr>selectedId := None\<rparr>) = s\<lparr>selectedId := None\<rparr>"
  by (simp add: handleSelectMovie_def handleCloseMovie_def)

section \<open>The Enter key\<close>

text \<open>
  C10. An Enter keydown while the search input is not the active element focuses the
  input and sets the query to the empty string, which leaves the result list empty and
  the error cleared and issues no request; while the input is the active element the
  keydown changes nothing.
\<close>

theorem enter_key_resets_query:
  assumes "reachable s"
  shows "(\<not> inputFocused s \<longrightarrow>
            callback ''Enter'' s = setQuery [] (s\<lparr>inputFocused := True\<rparr>) \<and>
            query (callback ''Enter'' s) = [] \<and> inputFocused (callback ''Enter'' s) \<and>
            movies (callback ''Enter'' s) = [] \<and> error (callback ''Enter'' s) = [] \<and>
            length (requests (callback ''Enter'' s)) = length (requests s)) \<and>
         (inputFocused s \<longrightarrow> callback ''Enter'' s = s)"
proof -
  have i: "inv s" using assms by (rule reachable_inv)
  show ?thesis
  proof (cases "query s = []")
    case True
    with i show ?thesis by (simp add: callback_def setQuery_def inv_def)
  next
    case False
    then show ?thesis by (simp add: callback_def setQuery_def queryEffect_def)
  qed
qed

theorem enter_key_resets_query_witness:
  "reachable typing_ab \<and> \<not> inputFocused typing_ab \<and> query typing_ab = ''ab'' \<and>
   query (callback ''Enter'' typing_ab) = [] \<and> inputFocused (callback ''Enter'' typing_ab) \<and>
   reachable (callback ''Enter'' typing_ab) \<and>
   callback ''Enter'' (callback ''Enter'' typing_ab) = callback ''Enter'' typing_ab"
proof -
  have r: "reachable typing_ab" by (rule reachable_typing_ab)
  have f: "\<not> inputFocused typing_ab \<and> query typing_ab = ''ab''" by (simp add: app_defs)
  have r': "reachable (callback ''Enter'' typing_ab)"
    using r by (rule reachable.stepped [where e = "KeyDown ''Enter''"]) simp
  from enter_key_resets_query [OF r] f
  have g: "query (callback ''Enter'' typing_ab) = [] \<and> inputFocused (callback ''Enter'' typing_ab)"
    by blast
  with enter_key_resets_query [OF r']
  have "callback ''Enter'' (callback ''Enter'' typing_ab) = callback ''Enter'' typing_ab"
    by blast
  with r f r' g show ?thesis by blast
qed

section \<open>The watched list\<close>

subsection \<open>Adding a record twice\<close>

text \<open>
  C3, as stated: after \<open>add(r)\<close> twice the list has exactly one record with the
  identifier of \<open>r\<close>. Starting from the empty list it has two.
\<close>

theorem add_twice_counterexample:
  "length (records_with tt1
     (watched (handleAddWatched tt1 (handleAddWatched tt1 (initial Map.empty []))))) = 2 \<and>
   \<not> distinct (map imdbID_of
     (watched (handleAddWatched tt1 (handleAddWatched tt1 (initial Map.empty [])))))"
  by (simp add: records_with_def handleAddWatched_def initial_def tt1_def)

text \<open>
  C3, amended. \<open>add(r)\<close> appends \<open>r\<close> at the end of the list without looking at the
  identifiers already present: after \<open>add(r)\<close> twice the list has two more records with
  the identifier of \<open>r\<close> than before.
\<close>

theorem add_appends:
  "watched (handleAddWatched r s) = watched s @ [r] \<and>
   length (records_with r (watched (handleAddWatched r (handleAddWatched r s)))) =
     length (records_with r (watched s)) + 2"
  by (simp add: records_with_def handleAddWatched_def)

subsection \<open>The startup load\<close>




subsection \<open>Persistence round trip\<close>









text \<open>The text that is stored after the two records of the example were added.\<close>

lemma stored_text_example:
  "localStorage (added2 tt1_fields tt2_fields) ''watched'' =
   Some (units ''[{'' @ [0x22] @ units ''imdbID'' @ [0x22] @ units '':'' @
         [0x22] @ units ''tt1'' @ [0x22] @ units '','' @
         [0x22] @ units ''userRating'' @ [0x22] @ units '':8,'' @
         [0x22] @ units ''imdbRating'' @ [0x22] @ units '':8.5},{'' @
         [0x22] @ units ''imdbID'' @ [0x22] @ units '':'' @
         [0x22] @ units ''tt2'' @ [0x22] @ units '','' @
         [0x22] @ units ''Title'' @ [0x22] @ units '':'' @
         [0x22] @ units ''Up'' @ [0x22] @ units ''}]'')"
  by (simp add: added2_def persistEffect_def handleAddWatched_def fresh_def queryEffect_def
      initial_def tt1_fields_def tt2_fields_def units_def quote_def escape_unit_def is_high_def
      is_low_def)

text \<open>
  A number that is not finite is not such a value. With \<open>[1e400]\<close> stored, the watched
  list after mounting holds an infinite number, the persistence effect stores \<open>[null]\<close>,
  and a fresh mount on that storage raises a TypeError in its first render. Neither is
  \<open>-0\<close>, which is written \<open>0\<close> and read back as \<open>0\<close>.
\<close>

lemma negative_zero_not_restored:
  "\<not> js_value example_number (JNum NegZero) \<and>
   JSON_stringify (JArr [JNum NegZero]) = units ''[0]'' \<and>
   JSON_parse example_number (units ''[0]'') = Some (JArr [JNum (Finite (units ''0''))])"
proof -
  have "JSON_parse example_number (units ''[0]'') = Some (JArr [JNum (Finite (units ''0''))])"
    by code_simp
  then show ?thesis
    by (simp add: units_def)
qed

lemma overflow_not_restored:
  "\<exists>s. mount example_number overflowing = Inr s \<and> watched s = [JNum NonFinite] \<and>
        \<not> js_value example_number (JNum NonFinite) \<and>
        localStorage s ''watched'' = Some (units ''[null]'') \<and>
        mount example_number (localStorage s) = Inl TypeError"
proof -
  have a: "JSON_parse example_number (units ''[1e400]'') = Some (JArr [JNum NonFinite])"
    by code_simp
  have b: "JSON_parse example_number (units ''[null]'') = Some (JArr [JNull])"
    by code_simp
  have c: "units ''[1e400]'' \<noteq> [] \<and> units ''[null]'' \<noteq> []"
    by (simp add: units_def)
  have d: "JSON_stringify (JArr [JNum NonFinite]) = units ''[null]''"
    by (simp add: units_def)
  from a c have "mount example_number overflowing =
      Inr (queryEffect (persistEffect (initial overflowing [JNum NonFinite])))"
    by (simp add: mount_def loadInitial_def overflowing_def)
  moreover have "localStorage (queryEffect (persistEffect (initial overflowing [JNum NonFinite])))
      ''watched'' = Some (units ''[null]'')"
    using d by (simp add: queryEffect_def persistEffect_def initial_def del: JSON_stringify.simps)
  moreover have "watched (queryEffect (persistEffect (initial overflowing [JNum NonFinite]))) =
      [JNum NonFinite]"
    by (simp add: queryEffect_def persistEffect_def initial_def)
  moreover have "mount example_number
      (localStorage (queryEffect (persistEffect (initial overflowing [JNum NonFinite])))) =
      Inl TypeError"
    using b c calculation(2) by (simp add: mount_def loadInitial_def)
  ultimately show ?thesis
    by simp
qed

end
